theory Spec2Isabelle
  imports Main "HOL-Library.Word" "HOL-Library.Code_Target_Nat"
begin

section \<open>The lexer (lexer/lexer.go)\<close>

text \<open>
  A Go string is a sequence of bytes and \<open>Tokenize\<close> reads it byte by byte
  (\<open>input[i]\<close>), so an input is a \<open>string\<close>: a list of 8-bit characters.
\<close>

datatype TokenType =
    TokenKeyword | TokenIdentifier | TokenOperator | TokenNumber
  | TokenString | TokenWhitespace | TokenSeparator | TokenUnknown

record Token =
  Type :: TokenType
  Value :: string

definition keywordsMap :: "string list" where
  "keywordsMap = [''select'', ''from'', ''where'', ''create'', ''table'', ''insert'',
     ''into'', ''values'', ''limit'', ''and'', ''or'', ''null'',
     ''update'', ''delete'', ''drop'']"

definition operators :: "string list" where
  "operators = [''='', ''!='', ''<'', ''>'', ''<='', ''>='']"

definition separators :: "char list" where
  "separators = [CHR '','', CHR '';'', CHR ''('', CHR '')'', CHR ''*'']"

text \<open>
  \<open>rune(input[i])\<close> turns the byte into the code point of the same number;
  \<open>string(ch)\<close> and \<open>WriteRune(ch)\<close> then write that code point in UTF-8: the byte
  itself below 0x80, two bytes from 0x80 on.
\<close>

definition runeString :: "char \<Rightarrow> string" where
  "runeString ch =
     (if (of_char ch :: nat) < 128 then [ch]
      else [char_of (192 + (of_char ch :: nat) div 64),
            char_of (128 + (of_char ch :: nat) mod 64)])"

definition isWhitespace :: "char \<Rightarrow> bool" where
  "isWhitespace ch \<longleftrightarrow>
     ch = CHR '' '' \<or> ch = CHR 0x09 \<or> ch = CHR 0x0A \<or> ch = CHR 0x0D"

definition isOperator :: "string \<Rightarrow> bool" where
  "isOperator s \<longleftrightarrow> s \<in> set operators"

definition isSeparator :: "char \<Rightarrow> bool" where
  "isSeparator ch \<longleftrightarrow> ch \<in> set separators"

definition isDigit :: "char \<Rightarrow> bool" where
  "isDigit ch \<longleftrightarrow> 48 \<le> (of_char ch :: nat) \<and> (of_char ch :: nat) \<le> 57"

text \<open>
  \<open>isNumeric\<close> ranges over the code points of the value. A byte of a two-byte
  sequence is neither a digit nor a dot, so the test on bytes decides the same.
\<close>

definition isNumeric :: "string \<Rightarrow> bool" where
  "isNumeric v \<longleftrightarrow> v \<noteq> [] \<and> list_all (\<lambda>ch. isDigit ch \<or> ch = CHR ''.'') v"

text \<open>
  \<open>strings.ToLower\<close>, \<open>strings.ToUpper\<close> and \<open>strings.EqualFold\<close> are only ever
  compared with ASCII words here, and every buffer holds code points below 0x100, whose
  case variants outside ASCII stay outside ASCII. The model changes the ASCII letters and
  leaves the other bytes alone, which decides every such comparison the same way.
\<close>

definition toLowerChar :: "char \<Rightarrow> char" where
  "toLowerChar ch =
     (if 65 \<le> (of_char ch :: nat) \<and> (of_char ch :: nat) \<le> 90
      then char_of ((of_char ch :: nat) + 32) else ch)"

definition toUpperChar :: "char \<Rightarrow> char" where
  "toUpperChar ch =
     (if 97 \<le> (of_char ch :: nat) \<and> (of_char ch :: nat) \<le> 122
      then char_of ((of_char ch :: nat) - 32) else ch)"

definition ToLower :: "string \<Rightarrow> string" where
  "ToLower s = map toLowerChar s"

definition ToUpper :: "string \<Rightarrow> string" where
  "ToUpper s = map toUpperChar s"

definition EqualFold :: "string \<Rightarrow> string \<Rightarrow> bool" where
  "EqualFold s t \<longleftrightarrow> ToLower s = ToLower t"

definition createToken :: "string \<Rightarrow> Token" where
  "createToken v =
     (if ToLower v \<in> set keywordsMap then \<lparr>Type = TokenKeyword, Value = v\<rparr>
      else if isNumeric v then \<lparr>Type = TokenNumber, Value = v\<rparr>
      else \<lparr>Type = TokenIdentifier, Value = v\<rparr>)"

text \<open>
  The flush that every delimiter branch starts with:
  \<open>if current.Len() > 0 { tokens = append(tokens, createToken(current.String())) }\<close>.
\<close>

definition flush :: "Token list \<Rightarrow> string \<Rightarrow> Token list" where
  "flush tokens current = (if current \<noteq> [] then tokens @ [createToken current] else tokens)"

text \<open>\<open>input[i:j]\<close>, used where the code has checked \<open>j \<le> len(input)\<close>.\<close>

definition slice :: "string \<Rightarrow> nat \<Rightarrow> nat \<Rightarrow> string" where
  "slice input i j = take (j - i) (drop i input)"

text \<open>
  The inner loop of the string branch:
  \<open>for i < len(input) && rune(input[i]) != quote { current.WriteRune(rune(input[i])); i++ }\<close>.
  It returns the position it stops at and the buffer.
\<close>

function scanString :: "string \<Rightarrow> char \<Rightarrow> nat \<Rightarrow> string \<Rightarrow> nat \<times> string" where
  "scanString input quote i current =
     (if i < length input \<and> input ! i \<noteq> quote
      then scanString input quote (i + 1) (current @ runeString (input ! i))
      else (i, current))"
  by pat_completeness auto
termination
  by (relation "measure (\<lambda>(input, quote, i, current). length input - i)") auto

declare scanString.simps [simp del]

lemma scanString_ge: "i \<le> fst (scanString input quote i current)"
proof (induction input quote i current rule: scanString.induct)
  case (1 input quote i current)
  show ?case
  proof (cases "i < length input \<and> input ! i \<noteq> quote")
    case True
    then have "i + 1 \<le> fst (scanString input quote (i + 1) (current @ runeString (input ! i)))"
      by (rule "1.IH")
    moreover have "scanString input quote i current
        = scanString input quote (i + 1) (current @ runeString (input ! i))"
      using True by (subst scanString.simps) simp
    ultimately show ?thesis by simp
  next
    case False
    then have "scanString input quote i current = (i, current)"
      by (subst scanString.simps) auto
    then show ?thesis by simp
  qed
qed

lemma scanString_gt: "i < fst (scanString input quote (Suc i) current)"
  using scanString_ge [of "Suc i" input quote current] by simp

text \<open>
  The main loop of \<open>Tokenize\<close>, with the loop variables \<open>i\<close>, \<open>tokens\<close> and
  \<open>current\<close> as arguments. The operator branch advances \<open>i\<close> inside its flush, as the
  source does, and then writes \<open>string(ch)\<close> for the character read before the flush.
\<close>

function Tokenize_loop :: "string \<Rightarrow> nat \<Rightarrow> Token list \<Rightarrow> string \<Rightarrow> Token list" where
  "Tokenize_loop input i tokens current =
     (if i < length input then
        (let ch = input ! i in
         if isWhitespace ch then
           Tokenize_loop input (i + 1) (flush tokens current) []
         else if isSeparator ch then
           Tokenize_loop input (i + 1)
             (flush tokens current @ [\<lparr>Type = TokenSeparator, Value = runeString ch\<rparr>]) []
         else if isOperator (runeString ch)
                 \<or> (length input > i + 1 \<and> isOperator (slice input i (i + 2))) then
           (let i1 = (if current \<noteq> [] then i + 1 else i) in
            if i1 + 1 < length input \<and> isOperator (slice input i1 (i1 + 2)) then
              Tokenize_loop input (i1 + 2)
                (flush tokens current @ [\<lparr>Type = TokenOperator, Value = slice input i1 (i1 + 2)\<rparr>]) []
            else
              Tokenize_loop input (i1 + 1)
                (flush tokens current @ [\<lparr>Type = TokenOperator, Value = runeString ch\<rparr>]) [])
         else if ch = CHR 0x27 \<or> ch = CHR 0x22 then
           (let r = scanString input ch (i + 1) [] in
            Tokenize_loop input (if fst r < length input then fst r + 1 else fst r)
              (flush tokens current @ [\<lparr>Type = TokenString, Value = snd r\<rparr>]) [])
         else
           Tokenize_loop input (i + 1) tokens (current @ runeString ch))
      else flush tokens current)"
  by pat_completeness auto
termination
proof (relation "measure (\<lambda>(input, i, tokens, current). length input - i)", goal_cases)
  case (6 input i tokens current ch r)
  have "i < fst (scanString input ch (Suc i) [])"
    by (rule scanString_gt)
  with 6 show ?case by auto
qed auto

declare Tokenize_loop.simps [simp del]

definition Tokenize :: "string \<Rightarrow> Token list" where
  "Tokenize input = Tokenize_loop input 0 [] []"

section \<open>The syntax tree (parser/parser.go)\<close>

text \<open>
  \<open>AstNode\<close> and \<open>Expr\<close> are empty interfaces that hold pointers to the structs
  below; each is a datatype with one constructor per struct. An absent \<open>Selection\<close>
  (a nil interface) and an absent \<open>Limit\<close> (a nil pointer) are \<open>None\<close>.
\<close>

datatype ProjectionItem = ProjectionItem (AllColumns: bool) (Column: string)

datatype TableRef = TableRef (Name: string)

datatype ColumnDef = ColumnDef (ColumnName: string) (ColumnType: string)

datatype Expr =
    ColumnRef string
  | LiteralInt "64 word"
  | LiteralString string
  | BinaryOp Expr string Expr
  | LogicalOp Expr string Expr
  | ComparisonOp Expr string Expr

datatype AstNode =
    SelectStmt (Projections: "ProjectionItem list") (From: TableRef)
               (Selection: "Expr option") (Limit: "64 word option")
  | InsertStmt (TableName: string) (Values: "Expr list")
  | CreateTableStmt (TableName: string) (Columns: "ColumnDef list")

subsection \<open>Errors\<close>

text \<open>
  \<open>strconv.ParseUint(v, 10, 64)\<close> fails with \<open>ErrSyntax\<close> on an empty string and on
  the first byte that is not a decimal digit, and with \<open>ErrRange\<close> as soon as the value
  read so far cannot stay below \<open>2 ^ 64\<close>.
\<close>

datatype NumError = ErrSyntax | ErrRange

text \<open>One constructor for each \<open>fmt.Errorf\<close> of the parser, with what the message prints.\<close>

datatype error =
    ExpectedKeywordEof string
  | ExpectedKeyword string string
  | UnexpectedEof
  | UnsupportedStatement string
  | UnexpectedEofAfterSelect
  | ExpectedProjectionIdentifier "Token option"
  | ExpectedTableAfterFrom
  | ExpectedNumberAfterLimit
  | ParseUintError NumError string
  | UnexpectedEofInExpression
  | ExpectedIdentifierOnLeft Token
  | ExpectedComparisonOperator "Token option"
  | UnexpectedEofAfterOperator
  | UnexpectedTokenOnRight Token
  | ExpectedTableNameAfterInto
  | UnexpectedEofInColumnList
  | ExpectedParenValues
  | UnexpectedEofInValues
  | ExpectedAtLeastOneValue
  | UnexpectedTokenInValues Token
  | ExpectedCloseParenValues
  | ExpectedTableNameAfterCreate
  | ExpectedParenAfterTableName
  | UnexpectedEofInColumnDefs
  | ExpectedAtLeastOneColumn
  | ExpectedColumnName Token
  | ExpectedColumnType string

fun ParseUint_loop :: "string \<Rightarrow> nat \<Rightarrow> NumError + nat" where
  "ParseUint_loop [] n = Inr n"
| "ParseUint_loop (c # cs) n =
     (if \<not> isDigit c then Inl ErrSyntax
      else if n \<ge> (2 ^ 64 - 1) div 10 + 1 then Inl ErrRange
      else if n * 10 + ((of_char c :: nat) - 48) \<ge> 2 ^ 64 then Inl ErrRange
      else ParseUint_loop cs (n * 10 + ((of_char c :: nat) - 48)))"

definition ParseUint :: "string \<Rightarrow> error + 64 word" where
  "ParseUint v =
     (if v = [] then Inl (ParseUintError ErrSyntax v)
      else case ParseUint_loop v 0 of
             Inl e \<Rightarrow> Inl (ParseUintError e v)
           | Inr n \<Rightarrow> Inr (of_nat n))"

text \<open>\<open>strings.Contains(v, ".")\<close> and \<open>strings.SplitN(v, ".", 2)[0]\<close>.\<close>

definition containsDot :: "string \<Rightarrow> bool" where
  "containsDot v \<longleftrightarrow> CHR ''.'' \<in> set v"

definition beforeFirstDot :: "string \<Rightarrow> string" where
  "beforeFirstDot v = takeWhile (\<lambda>c. c \<noteq> CHR ''.'') v"

text \<open>
  The number branch shared, as text, by \<open>parseComparison\<close> and the VALUES loop:
  \<open>if strings.Contains(v, ".") { v = strings.SplitN(v, ".", 2)[0] }\<close>, then
  \<open>strconv.ParseUint(v, 10, 64)\<close>.
\<close>

definition parseTruncated :: "string \<Rightarrow> error + 64 word" where
  "parseTruncated v = ParseUint (if containsDot v then beforeFirstDot v else v)"

subsection \<open>The parser state\<close>

record parser =
  tokens :: "Token list"
  pos :: nat

definition peek :: "parser \<Rightarrow> Token option" where
  "peek p = (if pos p \<ge> length (tokens p) then None else Some (tokens p ! pos p))"

text \<open>
  \<open>next\<close> returns the token at the cursor and moves the cursor. Every call site has
  peeked the same token just before, so the functions below read the value from the
  peeked token and take the moved state from \<open>nextTok\<close>.
\<close>

definition nextTok :: "parser \<Rightarrow> Token option \<times> parser" where
  "nextTok p =
     (if pos p \<ge> length (tokens p) then (None, p)
      else (Some (tokens p ! pos p), p\<lparr>pos := pos p + 1\<rparr>))"

text \<open>
  Two tests the parser writes inline:
  \<open>p.peek() != nil && p.peek().Type == TokenSeparator && p.peek().Value == v\<close> and
  \<open>p.peek() != nil && p.peek().Type == TokenKeyword && strings.EqualFold(p.peek().Value, name)\<close>.
\<close>

definition peekIsSeparator :: "parser \<Rightarrow> string \<Rightarrow> bool" where
  "peekIsSeparator p v =
     (case peek p of None \<Rightarrow> False | Some t \<Rightarrow> Type t = TokenSeparator \<and> Value t = v)"

definition peekIsKeyword :: "parser \<Rightarrow> string \<Rightarrow> bool" where
  "peekIsKeyword p name =
     (case peek p of None \<Rightarrow> False
      | Some t \<Rightarrow> Type t = TokenKeyword \<and> EqualFold (Value t) name)"

definition consumeKeyword :: "string \<Rightarrow> parser \<Rightarrow> bool \<times> parser" where
  "consumeKeyword name p =
     (case peek p of
        None \<Rightarrow> (False, p)
      | Some t \<Rightarrow>
          if Type t = TokenKeyword \<and> EqualFold (Value t) name
          then (True, snd (nextTok p)) else (False, p))"

definition expectKeyword :: "string \<Rightarrow> parser \<Rightarrow> error + parser" where
  "expectKeyword name p =
     (case consumeKeyword name p of
        (True, p1) \<Rightarrow> Inr p1
      | (False, p1) \<Rightarrow>
          (case peek p1 of
             None \<Rightarrow> Inl (ExpectedKeywordEof name)
           | Some t \<Rightarrow> Inl (ExpectedKeyword name (Value t))))"

subsection \<open>Expressions\<close>

text \<open>
  A sub-parser returns \<open>Inl\<close> the error, or \<open>Inr\<close> its result and the parser state
  after it. After an error every caller returns at once and the state is never read
  again, so the error side carries no state.
\<close>

definition parseComparison :: "parser \<Rightarrow> error + (Expr \<times> parser)" where
  "parseComparison p =
     (case peek p of
        None \<Rightarrow> Inl UnexpectedEofInExpression
      | Some l \<Rightarrow>
          if Type l \<noteq> TokenIdentifier then Inl (ExpectedIdentifierOnLeft l)
          else
            (let left = ColumnRef (Value l); p1 = snd (nextTok p) in
             case peek p1 of
               None \<Rightarrow> Inl (ExpectedComparisonOperator None)
             | Some opt \<Rightarrow>
                 if Type opt \<noteq> TokenOperator then Inl (ExpectedComparisonOperator (Some opt))
                 else
                   (let op = Value opt; p2 = snd (nextTok p1) in
                    case peek p2 of
                      None \<Rightarrow> Inl UnexpectedEofAfterOperator
                    | Some r \<Rightarrow>
                        (case Type r of
                           TokenNumber \<Rightarrow>
                             (case parseTruncated (Value r) of
                                Inl e \<Rightarrow> Inl e
                              | Inr u \<Rightarrow>
                                  Inr (ComparisonOp left op (LiteralInt u), snd (nextTok p2)))
                         | TokenString \<Rightarrow>
                             Inr (ComparisonOp left op (LiteralString (Value r)),
                                  snd (nextTok p2))
                         | TokenIdentifier \<Rightarrow>
                             Inr (ComparisonOp left op (ColumnRef (Value r)), snd (nextTok p2))
                         | _ \<Rightarrow> Inl (UnexpectedTokenOnRight r)))))"

lemma peek_Some_pos: "peek p = Some t \<Longrightarrow> pos p < length (tokens p)"
  by (simp add: peek_def split: if_splits)

lemma tokens_nextTok [simp]: "tokens (snd (nextTok p)) = tokens p"
  by (simp add: nextTok_def)

lemma pos_nextTok:
  "pos (snd (nextTok p)) = (if pos p < length (tokens p) then pos p + 1 else pos p)"
  by (simp add: nextTok_def)

lemma peekIsSeparator_pos: "peekIsSeparator p v \<Longrightarrow> pos p < length (tokens p)"
  by (auto simp: peekIsSeparator_def dest: peek_Some_pos split: option.splits)

lemma peekIsKeyword_pos: "peekIsKeyword p v \<Longrightarrow> pos p < length (tokens p)"
  by (auto simp: peekIsKeyword_def dest: peek_Some_pos split: option.splits)

lemma parseComparison_advances:
  assumes "parseComparison p = Inr (e, p1)"
  shows "tokens p1 = tokens p \<and> pos p1 = pos p + 3 \<and> pos p1 \<le> length (tokens p)"
  using assms
  by (auto simp: parseComparison_def Let_def pos_nextTok
           dest!: peek_Some_pos
           split: option.splits if_splits TokenType.splits sum.splits)

function parseLogical_loop :: "Expr \<Rightarrow> parser \<Rightarrow> error + (Expr \<times> parser)" where
  "parseLogical_loop left p =
     (case peek p of
        None \<Rightarrow> Inr (left, p)
      | Some t \<Rightarrow>
          if Type t = TokenKeyword \<and> (EqualFold (Value t) ''AND'' \<or> EqualFold (Value t) ''OR'')
          then
            (let op = ToUpper (Value t) in
             case parseComparison (snd (nextTok p)) of
               Inl e \<Rightarrow> Inl e
             | Inr (right, p1) \<Rightarrow> parseLogical_loop (LogicalOp left op right) p1)
          else Inr (left, p))"
  by pat_completeness auto
termination
proof (relation "measure (\<lambda>(left, p). length (tokens p) - pos p)", goal_cases)
  case (2 left p t op r right p1)
  then have "parseComparison (snd (nextTok p)) = Inr (right, p1)"
    by simp
  from parseComparison_advances [OF this] peek_Some_pos [OF 2(1)]
  show ?case by (auto simp: pos_nextTok)
qed simp

declare parseLogical_loop.simps [simp del]

definition parseLogical :: "parser \<Rightarrow> error + (Expr \<times> parser)" where
  "parseLogical p =
     (case parseComparison p of
        Inl e \<Rightarrow> Inl e
      | Inr (left, p1) \<Rightarrow> parseLogical_loop left p1)"

subsection \<open>SELECT\<close>

text \<open>The projection loop of \<open>parseSelect\<close>, entered when the first token is not \<open>*\<close>.\<close>

function parseProjections ::
  "ProjectionItem list \<Rightarrow> parser \<Rightarrow> error + (ProjectionItem list \<times> parser)" where
  "parseProjections proj p =
     (case peek p of
        None \<Rightarrow> Inl (ExpectedProjectionIdentifier None)
      | Some t \<Rightarrow>
          if Type t \<noteq> TokenIdentifier then Inl (ExpectedProjectionIdentifier (Some t))
          else
            (let proj1 = proj @ [ProjectionItem False (Value t)]; p1 = snd (nextTok p) in
             if peekIsSeparator p1 '','' then parseProjections proj1 (snd (nextTok p1))
             else Inr (proj1, p1)))"
  by pat_completeness auto
termination
proof (relation "measure (\<lambda>(proj, p). length (tokens p) - pos p)", goal_cases)
  case (2 proj p t proj1 p1)
  from 2 peek_Some_pos [OF 2(1)] show ?case
    by (auto simp: pos_nextTok dest: peekIsSeparator_pos)
qed simp

declare parseProjections.simps [simp del]

definition parseLimit :: "parser \<Rightarrow> error + (64 word option \<times> parser)" where
  "parseLimit p =
     (if peekIsKeyword p ''LIMIT'' then
        (let p1 = snd (nextTok p) in
         case peek p1 of
           None \<Rightarrow> Inl ExpectedNumberAfterLimit
         | Some t \<Rightarrow>
             if Type t \<noteq> TokenNumber then Inl ExpectedNumberAfterLimit
             else
               (case ParseUint (Value t) of
                  Inl e \<Rightarrow> Inl e
                | Inr u \<Rightarrow> Inr (Some u, snd (nextTok p1))))
      else Inr (None, p))"

definition parseWhere :: "parser \<Rightarrow> error + (Expr option \<times> parser)" where
  "parseWhere p =
     (if peekIsKeyword p ''WHERE'' then
        (case parseLogical (snd (nextTok p)) of
           Inl e \<Rightarrow> Inl e
         | Inr (expr, p1) \<Rightarrow> Inr (Some expr, p1))
      else Inr (None, p))"

definition parseSelect :: "parser \<Rightarrow> error + (AstNode \<times> parser)" where
  "parseSelect p0 =
     (let p = snd (nextTok p0) in
      case peek p of
        None \<Rightarrow> Inl UnexpectedEofAfterSelect
      | Some t \<Rightarrow>
          (case (if Type t = TokenSeparator \<and> Value t = ''*''
                 then Inr ([ProjectionItem True []], snd (nextTok p))
                 else parseProjections [] p) of
             Inl e \<Rightarrow> Inl e
           | Inr (proj, p1) \<Rightarrow>
               (case expectKeyword ''FROM'' p1 of
                  Inl e \<Rightarrow> Inl e
                | Inr p2 \<Rightarrow>
                    (case peek p2 of
                       None \<Rightarrow> Inl ExpectedTableAfterFrom
                     | Some tt \<Rightarrow>
                         if Type tt \<noteq> TokenIdentifier then Inl ExpectedTableAfterFrom
                         else
                           (let table = Value tt in
                            case parseWhere (snd (nextTok p2)) of
                              Inl e \<Rightarrow> Inl e
                            | Inr (selection, p3) \<Rightarrow>
                                (case parseLimit p3 of
                                   Inl e \<Rightarrow> Inl e
                                 | Inr (limit, p4) \<Rightarrow>
                                     Inr (SelectStmt proj (TableRef table) selection limit,
                                          p4)))))))"

subsection \<open>INSERT\<close>

text \<open>The loop that skips the optional column list, entered after its \<open>(\<close>.\<close>

function skipColumnList :: "parser \<Rightarrow> error + parser" where
  "skipColumnList p =
     (case peek p of
        None \<Rightarrow> Inl UnexpectedEofInColumnList
      | Some t \<Rightarrow>
          if Type t = TokenSeparator \<and> Value t = '')'' then Inr (snd (nextTok p))
          else
            (let p1 = snd (nextTok p) in
             skipColumnList (if peekIsSeparator p1 '','' then snd (nextTok p1) else p1)))"
  by pat_completeness auto
termination
proof (relation "measure (\<lambda>p. length (tokens p) - pos p)", goal_cases)
  case (2 p t p1)
  from 2 peek_Some_pos [OF 2(1)] show ?case
    by (auto simp: pos_nextTok dest: peekIsSeparator_pos)
qed simp

declare skipColumnList.simps [simp del]

text \<open>One entry of the VALUES list, decided by the kind of the token at the cursor.\<close>

definition parseValue :: "Token \<Rightarrow> error + Expr" where
  "parseValue t =
     (if Type t = TokenNumber then
        (case parseTruncated (Value t) of
           Inl e \<Rightarrow> Inl e
         | Inr u \<Rightarrow> Inr (LiteralInt u))
      else if Type t = TokenString then Inr (LiteralString (Value t))
      else if Type t = TokenIdentifier then Inr (ColumnRef (Value t))
      else Inl (UnexpectedTokenInValues t))"

text \<open>The VALUES loop, with its variables \<open>vals\<close> and \<open>hasValues\<close>.\<close>

function parseValues :: "Expr list \<Rightarrow> bool \<Rightarrow> parser \<Rightarrow> error + (Expr list \<times> parser)" where
  "parseValues vals hasValues p =
     (case peek p of
        None \<Rightarrow> Inl UnexpectedEofInValues
      | Some t \<Rightarrow>
          if Type t = TokenSeparator \<and> Value t = '')'' then
            (if \<not> hasValues then Inl ExpectedAtLeastOneValue else Inr (vals, p))
          else
            (case parseValue t of
               Inl e \<Rightarrow> Inl e
             | Inr v \<Rightarrow>
                 (let p1 = snd (nextTok p) in
                  if peekIsSeparator p1 '','' then parseValues (vals @ [v]) True (snd (nextTok p1))
                  else Inr (vals @ [v], p1))))"
  by pat_completeness auto
termination
proof (relation "measure (\<lambda>(vals, hasValues, p). length (tokens p) - pos p)", goal_cases)
  case (2 vals hasValues p t v p1)
  from 2 peek_Some_pos [OF 2(1)] show ?case
    by (auto simp: pos_nextTok dest: peekIsSeparator_pos)
qed simp

declare parseValues.simps [simp del]

definition parseInsert :: "parser \<Rightarrow> error + (AstNode \<times> parser)" where
  "parseInsert p0 =
     (case expectKeyword ''INTO'' (snd (nextTok p0)) of
        Inl e \<Rightarrow> Inl e
      | Inr p1 \<Rightarrow>
          (case peek p1 of
             None \<Rightarrow> Inl ExpectedTableNameAfterInto
           | Some tt \<Rightarrow>
               if Type tt \<noteq> TokenIdentifier then Inl ExpectedTableNameAfterInto
               else
                 (let table = Value tt; p2 = snd (nextTok p1) in
                  case (if peekIsSeparator p2 ''('' then skipColumnList (snd (nextTok p2))
                        else Inr p2) of
                    Inl e \<Rightarrow> Inl e
                  | Inr p3 \<Rightarrow>
                      (case expectKeyword ''VALUES'' p3 of
                         Inl e \<Rightarrow> Inl e
                       | Inr p4 \<Rightarrow>
                           if \<not> peekIsSeparator p4 ''('' then Inl ExpectedParenValues
                           else
                             (case parseValues [] False (snd (nextTok p4)) of
                                Inl e \<Rightarrow> Inl e
                              | Inr (vals, p5) \<Rightarrow>
                                  if \<not> peekIsSeparator p5 '')''
                                  then Inl ExpectedCloseParenValues
                                  else Inr (InsertStmt table vals, snd (nextTok p5)))))))"

subsection \<open>CREATE TABLE\<close>

text \<open>
  The column loop, with its variables \<open>cols\<close> and \<open>hasColumns\<close>. After a definition
  the loop goes round again whether or not a comma followed; only \<open>)\<close> leaves it.
\<close>

function parseColumnDefs ::
  "ColumnDef list \<Rightarrow> bool \<Rightarrow> parser \<Rightarrow> error + (ColumnDef list \<times> parser)" where
  "parseColumnDefs cols hasColumns p =
     (case peek p of
        None \<Rightarrow> Inl UnexpectedEofInColumnDefs
      | Some t \<Rightarrow>
          if Type t = TokenSeparator \<and> Value t = '')'' then
            (if \<not> hasColumns then Inl ExpectedAtLeastOneColumn
             else Inr (cols, snd (nextTok p)))
          else if Type t \<noteq> TokenIdentifier then Inl (ExpectedColumnName t)
          else
            (let name = Value t; p1 = snd (nextTok p) in
             case peek p1 of
               None \<Rightarrow> Inl (ExpectedColumnType name)
             | Some ty \<Rightarrow>
                 if Type ty \<noteq> TokenIdentifier then Inl (ExpectedColumnType name)
                 else
                   (let p2 = snd (nextTok p1) in
                    parseColumnDefs (cols @ [ColumnDef name (Value ty)]) True
                      (if peekIsSeparator p2 '','' then snd (nextTok p2) else p2))))"
  by pat_completeness auto
termination
proof (relation "measure (\<lambda>(cols, hasColumns, p). length (tokens p) - pos p)", goal_cases)
  case (2 cols hasColumns p t name p1 ty p2)
  from 2 peek_Some_pos [OF 2(1)] show ?case
    by (auto simp: pos_nextTok dest: peekIsSeparator_pos)
qed simp

declare parseColumnDefs.simps [simp del]

definition parseCreateTable :: "parser \<Rightarrow> error + (AstNode \<times> parser)" where
  "parseCreateTable p0 =
     (case expectKeyword ''TABLE'' (snd (nextTok p0)) of
        Inl e \<Rightarrow> Inl e
      | Inr p1 \<Rightarrow>
          (case peek p1 of
             None \<Rightarrow> Inl ExpectedTableNameAfterCreate
           | Some tt \<Rightarrow>
               if Type tt \<noteq> TokenIdentifier then Inl ExpectedTableNameAfterCreate
               else
                 (let table = Value tt; p2 = snd (nextTok p1) in
                  if \<not> peekIsSeparator p2 ''('' then Inl ExpectedParenAfterTableName
                  else
                    (case parseColumnDefs [] False (snd (nextTok p2)) of
                       Inl e \<Rightarrow> Inl e
                     | Inr (cols, p3) \<Rightarrow> Inr (CreateTableStmt table cols, p3)))))"

subsection \<open>Statements\<close>

text \<open>A sub-parser never moves the cursor back and never changes the token sequence.\<close>

lemma expectKeyword_mono:
  "expectKeyword name p = Inr p1 \<Longrightarrow> tokens p1 = tokens p \<and> pos p \<le> pos p1"
  by (auto simp: expectKeyword_def consumeKeyword_def pos_nextTok
           split: option.splits if_splits prod.splits bool.splits)

lemma parseProjections_mono:
  "parseProjections proj p = Inr (x, p1) \<Longrightarrow> tokens p1 = tokens p \<and> pos p \<le> pos p1"
proof (induction proj p rule: parseProjections.induct)
  case (1 proj p)
  from "1.prems" "1.IH" show ?case
    unfolding parseProjections.simps [of proj p]
    by (fastforce simp: Let_def pos_nextTok split: option.splits if_splits)
qed

lemma parseLogical_loop_mono:
  "parseLogical_loop left p = Inr (x, p1) \<Longrightarrow> tokens p1 = tokens p \<and> pos p \<le> pos p1"
proof (induction left p rule: parseLogical_loop.induct)
  case (1 left p)
  from "1.prems" "1.IH" show ?case
    unfolding parseLogical_loop.simps [of left p]
    by (fastforce simp: Let_def pos_nextTok split: option.splits if_splits sum.splits
         dest: parseComparison_advances)
qed

lemma skipColumnList_mono:
  "skipColumnList p = Inr p1 \<Longrightarrow> tokens p1 = tokens p \<and> pos p \<le> pos p1"
proof (induction p rule: skipColumnList.induct)
  case (1 p)
  from "1.prems" "1.IH" show ?case
    unfolding skipColumnList.simps [of p]
    by (fastforce simp: Let_def pos_nextTok split: option.splits if_splits)
qed

lemma parseValues_mono:
  "parseValues vals h p = Inr (x, p1) \<Longrightarrow> tokens p1 = tokens p \<and> pos p \<le> pos p1"
proof (induction vals h p rule: parseValues.induct)
  case (1 vals h p)
  from "1.prems" "1.IH" show ?case
    unfolding parseValues.simps [of vals h p]
    by (fastforce simp: Let_def pos_nextTok split: option.splits if_splits sum.splits)
qed

lemma parseColumnDefs_mono:
  "parseColumnDefs cols h p = Inr (x, p1) \<Longrightarrow> tokens p1 = tokens p \<and> pos p \<le> pos p1"
proof (induction cols h p rule: parseColumnDefs.induct)
  case (1 cols h p)
  from "1.prems" "1.IH" show ?case
    unfolding parseColumnDefs.simps [of cols h p]
    by (fastforce simp: Let_def pos_nextTok split: option.splits if_splits)
qed

lemma parseLogical_mono:
  "parseLogical p = Inr (x, p1) \<Longrightarrow> tokens p1 = tokens p \<and> pos p \<le> pos p1"
  by (fastforce simp: parseLogical_def split: sum.splits
        dest: parseComparison_advances parseLogical_loop_mono)

lemma parseWhere_mono:
  "parseWhere p = Inr (x, p1) \<Longrightarrow> tokens p1 = tokens p \<and> pos p \<le> pos p1"
  by (fastforce simp: parseWhere_def pos_nextTok split: sum.splits if_splits
        dest: parseLogical_mono)

lemma parseLimit_mono:
  "parseLimit p = Inr (x, p1) \<Longrightarrow> tokens p1 = tokens p \<and> pos p \<le> pos p1"
  by (auto simp: parseLimit_def Let_def pos_nextTok split: sum.splits if_splits option.splits)

lemma parseSelect_advances:
  assumes "parseSelect p = Inr (x, p1)" and "pos p < length (tokens p)"
  shows "tokens p1 = tokens p \<and> pos p < pos p1"
  using assms
  by (auto simp: parseSelect_def Let_def pos_nextTok
        split: option.splits sum.splits if_splits
        dest!: parseProjections_mono expectKeyword_mono parseWhere_mono parseLimit_mono)

lemma parseInsert_advances:
  assumes "parseInsert p = Inr (x, p1)" and "pos p < length (tokens p)"
  shows "tokens p1 = tokens p \<and> pos p < pos p1"
  using assms
  by (auto simp: parseInsert_def Let_def pos_nextTok
        split: option.splits sum.splits if_splits
        dest!: skipColumnList_mono expectKeyword_mono parseValues_mono)

lemma parseCreateTable_advances:
  assumes "parseCreateTable p = Inr (x, p1)" and "pos p < length (tokens p)"
  shows "tokens p1 = tokens p \<and> pos p < pos p1"
  using assms
  by (auto simp: parseCreateTable_def Let_def pos_nextTok
        split: option.splits sum.splits if_splits
        dest!: expectKeyword_mono parseColumnDefs_mono)

definition parseStatement :: "parser \<Rightarrow> error + (AstNode \<times> parser)" where
  "parseStatement p =
     (case peek p of
        None \<Rightarrow> Inl UnexpectedEof
      | Some t \<Rightarrow>
          if Type t = TokenKeyword \<and> ToUpper (Value t) = ''SELECT'' then parseSelect p
          else if Type t = TokenKeyword \<and> ToUpper (Value t) = ''INSERT'' then parseInsert p
          else if Type t = TokenKeyword \<and> ToUpper (Value t) = ''CREATE'' then parseCreateTable p
          else Inl (UnsupportedStatement (Value t)))"

lemma parseStatement_advances:
  assumes "parseStatement p = Inr (x, p1)"
  shows "tokens p1 = tokens p \<and> pos p < pos p1"
  using assms
  by (auto simp: parseStatement_def split: option.splits if_splits
        dest: peek_Some_pos parseSelect_advances parseInsert_advances
              parseCreateTable_advances)

text \<open>
  The loop of \<open>parseStatements\<close>, with its variable \<open>out\<close>. The result is the pair the
  Go function returns: the nodes and the error, \<open>nil, err\<close> on a failure and
  \<open>out, nil\<close> at the end of the tokens.
\<close>

function parseStatements_loop :: "AstNode list \<Rightarrow> parser \<Rightarrow> AstNode list \<times> error option" where
  "parseStatements_loop out p =
     (case peek p of
        None \<Rightarrow> (out, None)
      | Some t \<Rightarrow>
          if Type t = TokenSeparator \<and> Value t = '';''
          then parseStatements_loop out (snd (nextTok p))
          else
            (case parseStatement p of
               Inl err \<Rightarrow> ([], Some err)
             | Inr (node, p1) \<Rightarrow>
                 parseStatements_loop (out @ [node])
                   (if peekIsSeparator p1 '';'' then snd (nextTok p1) else p1)))"
  by pat_completeness auto
termination
proof (relation "measure (\<lambda>(out, p). length (tokens p) - pos p)", goal_cases)
  case (2 out p t)
  from peek_Some_pos [OF 2(1)] show ?case by (simp add: pos_nextTok)
next
  case (3 out p t r node p1)
  then have "parseStatement p = Inr (node, p1)" by simp
  from parseStatement_advances [OF this] peek_Some_pos [OF 3(1)]
  show ?case by (auto simp: pos_nextTok)
qed simp

declare parseStatements_loop.simps [simp del]

definition parseStatements :: "parser \<Rightarrow> AstNode list \<times> error option" where
  "parseStatements p = parseStatements_loop [] p"

definition ParseString :: "string \<Rightarrow> AstNode list \<times> error option" where
  "ParseString input = parseStatements \<lparr>tokens = Tokenize input, pos = 0\<rparr>"

section \<open>Notions used in the statements\<close>

text \<open>
  The tokens not yet consumed, and the state whose cursor has moved \<open>n\<close> tokens on.
\<close>

definition remaining :: "parser \<Rightarrow> Token list" where
  "remaining p = drop (pos p) (tokens p)"

definition advance :: "nat \<Rightarrow> parser \<Rightarrow> parser" where
  "advance n p = p\<lparr>pos := pos p + n\<rparr>"

definition isSemicolon :: "Token \<Rightarrow> bool" where
  "isSemicolon t \<longleftrightarrow> Type t = TokenSeparator \<and> Value t = '';''"

text \<open>
  The token that ends a parenthesised list.
\<close>

definition isCloseParen :: "Token \<Rightarrow> bool" where
  "isCloseParen t \<longleftrightarrow> Type t = TokenSeparator \<and> Value t = '')''"

text \<open>
  A chain of comparisons as the loop of \<open>parseLogical\<close> meets it: each link is the
  AND or OR keyword at the cursor, the comparison parsed after it and the state after
  that comparison; the chain ends where the token at the cursor is no such keyword.
  \<open>foldLogical\<close> is the left fold of LogicalOp over the links.
\<close>

definition isLogicalKeyword :: "Token \<Rightarrow> bool" where
  "isLogicalKeyword t \<longleftrightarrow>
     Type t = TokenKeyword \<and> (EqualFold (Value t) ''AND'' \<or> EqualFold (Value t) ''OR'')"

fun logicalChain :: "parser \<Rightarrow> (Token \<times> Expr \<times> parser) list \<Rightarrow> bool" where
  "logicalChain p [] = (case peek p of None \<Rightarrow> True | Some t \<Rightarrow> \<not> isLogicalKeyword t)"
| "logicalChain p ((kw, right, q) # chain) =
     (peek p = Some kw \<and> isLogicalKeyword kw
      \<and> parseComparison (snd (nextTok p)) = Inr (right, q) \<and> logicalChain q chain)"

definition foldLogical :: "Expr \<Rightarrow> (Token \<times> Expr \<times> parser) list \<Rightarrow> Expr" where
  "foldLogical left chain =
     foldl (\<lambda>l (kw, right, q). LogicalOp l (ToUpper (Value kw)) right) left chain"

definition chainEnd :: "parser \<Rightarrow> (Token \<times> Expr \<times> parser) list \<Rightarrow> parser" where
  "chainEnd p chain = (if chain = [] then p else snd (snd (last chain)))"

section \<open>Properties of the lexer\<close>

text \<open>
  C1. The specification asks that every character that is neither whitespace nor a
  quote delimiter ends up in exactly one token, and gives \<open>a<1\<close> as an input all of
  whose characters appear in some token. \<open>Tokenize\<close> does terminate on every input (the
  termination proofs above), but on \<open>a<1\<close> it returns the identifier \<open>a\<close> and the
  operator \<open><\<close> only: the operator branch flushes the pending \<open>a\<close>, advances the
  position inside that flush, emits the operator read before the flush and advances
  again, so the \<open>1\<close> is stepped over and reaches no token.
\<close>

theorem C1_character_after_operator_dropped:
  "Tokenize ''a<1'' =
     [\<lparr>Type = TokenIdentifier, Value = ''a''\<rparr>, \<lparr>Type = TokenOperator, Value = ''<''\<rparr>]
   \<and> concat (map Value (Tokenize ''a<1'')) = ''a<''"
  by code_simp

text \<open>
  C2. The specification asks that a two-character operator is emitted as one Operator
  token after the pending buffer has been flushed, so that \<open>a!=1\<close> gives Identifier
  \<open>a\<close>, Operator \<open>!=\<close>, Number \<open>1\<close>. With a pending buffer the operator branch looks
  for the two-character operator one position too far: on \<open>a!=1\<close> it emits the
  one-character token \<open>!\<close> and the \<open>=\<close> reaches no token.
\<close>

theorem C2_two_character_operator_after_buffer:
  "Tokenize ''a!=1'' =
     [\<lparr>Type = TokenIdentifier, Value = ''a''\<rparr>,
      \<lparr>Type = TokenOperator, Value = ''!''\<rparr>,
      \<lparr>Type = TokenNumber, Value = ''1''\<rparr>]"
  by code_simp

subsection \<open>Strings without a closing quote\<close>










section \<open>Properties of the parser\<close>

text \<open>
  C4. The specification asks that CREATE TABLE is accepted exactly when the tokens
  after the table name match \<open>'(' ident ident (',' ident ident)* ')'\<close>, so that two
  column definitions without a comma between them, or a comma right before \<open>)\<close>, are
  errors. The column loop accepts both: after a definition it goes round again whether
  or not a comma followed, and \<open>)\<close> ends the list wherever the loop meets it.
\<close>

theorem C4_create_table_commas_not_required:
  "ParseString ''CREATE TABLE t (a INT b TEXT)'' =
     ([CreateTableStmt ''t'' [ColumnDef ''a'' ''INT'', ColumnDef ''b'' ''TEXT'']], None)
   \<and> ParseString ''CREATE TABLE t (a INT,)'' =
     ([CreateTableStmt ''t'' [ColumnDef ''a'' ''INT'']], None)"
  by code_simp

text \<open>
  C7. Parsing \<open>SELECT * FROM users WHERE id = 123\<close> succeeds with exactly one node: a
  SelectStmt with the single wildcard projection, the table \<open>users\<close>, the predicate
  ComparisonOp(ColumnRef id, =, LiteralInt 123) and no limit.
\<close>

theorem C7_select_where_example:
  "ParseString ''SELECT * FROM users WHERE id = 123'' =
     ([SelectStmt [ProjectionItem True []] (TableRef ''users'')
         (Some (ComparisonOp (ColumnRef ''id'') ''='' (LiteralInt 123))) None],
      None)"
  by code_simp

subsection \<open>The statement loop\<close>

lemma peek_None_iff: "peek p = None \<longleftrightarrow> remaining p = []"
  by (simp add: peek_def remaining_def)

lemma peek_Some_remaining:
  "peek p = Some t \<Longrightarrow> remaining p = t # remaining (snd (nextTok p))"
  by (auto simp: peek_def remaining_def nextTok_def Cons_nth_drop_Suc split: if_splits)

lemma parseStatements_loop_semicolons:
  "list_all isSemicolon (remaining p) \<Longrightarrow> parseStatements_loop out p = (out, None)"
proof (induction out p rule: parseStatements_loop.induct)
  case (1 out p)
  show ?case
  proof (cases "peek p")
    case None
    then show ?thesis by (simp add: parseStatements_loop.simps [of out p])
  next
    case (Some t)
    from peek_Some_remaining [OF Some] "1.prems"
    have t: "isSemicolon t" and rest: "list_all isSemicolon (remaining (snd (nextTok p)))"
      by simp_all
    from t have sep: "Type t = TokenSeparator \<and> Value t = '';''"
      by (simp add: isSemicolon_def)
    from "1.IH"(1) [OF Some sep rest] Some sep show ?thesis
      by (simp add: parseStatements_loop.simps [of out p])
  qed
qed

text \<open>
  C10. When the token sequence is empty or holds nothing but \<open>;\<close> separators,
  \<open>parseStatements\<close> returns no node and no error. Read the other way round: an error,
  in particular the one for a leading token that starts no statement, needs a token
  that is not a semicolon.
\<close>

theorem C10_only_semicolons:
  "list_all isSemicolon ts \<Longrightarrow> parseStatements \<lparr>tokens = ts, pos = 0\<rparr> = ([], None)"
  by (simp add: parseStatements_def parseStatements_loop_semicolons remaining_def)

theorem C10_only_semicolons_witness:
  "list_all isSemicolon (Tokenize '';;;'')
   \<and> ParseString '';;;'' = ([], None)
   \<and> list_all isSemicolon (Tokenize '''')
   \<and> ParseString '''' = ([], None)"
proof -
  have a: "list_all isSemicolon (Tokenize '';;;'')" by code_simp
  have b: "list_all isSemicolon (Tokenize '''')" by code_simp
  from a b C10_only_semicolons [of "Tokenize '';;;''"] C10_only_semicolons [of "Tokenize ''''"]
  show ?thesis by (simp add: ParseString_def)
qed

lemma parseStatements_loop_error:
  "snd (parseStatements_loop out p) \<noteq> None \<Longrightarrow> fst (parseStatements_loop out p) = []"
proof (induction out p rule: parseStatements_loop.induct)
  case (1 out p)
  from "1.prems" "1.IH" show ?case
    unfolding parseStatements_loop.simps [of out p]
    by (auto split: option.splits if_splits sum.splits)
qed

text \<open>
  C5. Whenever \<open>ParseString\<close> returns an error it returns no node, also when earlier
  rounds of the statement loop had parsed statements. Each of \<open>SELECT FROM t\<close>,
  \<open>CREATE TABLE t()\<close> and \<open>INSERT INTO t VALUES\<close> gives an error and no node.
\<close>

theorem C5_no_partial_result:
  "(snd (ParseString input) \<noteq> None \<longrightarrow> fst (ParseString input) = [])
   \<and> ParseString ''SELECT FROM t'' =
       ([], Some (ExpectedProjectionIdentifier (Some \<lparr>Type = TokenKeyword, Value = ''FROM''\<rparr>)))
   \<and> ParseString ''CREATE TABLE t()'' = ([], Some ExpectedAtLeastOneColumn)
   \<and> ParseString ''INSERT INTO t VALUES'' = ([], Some ExpectedParenValues)"
proof -
  have "snd (ParseString input) \<noteq> None \<longrightarrow> fst (ParseString input) = []"
    by (simp add: ParseString_def parseStatements_def parseStatements_loop_error)
  moreover have "ParseString ''SELECT FROM t'' =
       ([], Some (ExpectedProjectionIdentifier (Some \<lparr>Type = TokenKeyword, Value = ''FROM''\<rparr>)))"
    by code_simp
  moreover have "ParseString ''CREATE TABLE t()'' = ([], Some ExpectedAtLeastOneColumn)"
    by code_simp
  moreover have "ParseString ''INSERT INTO t VALUES'' = ([], Some ExpectedParenValues)"
    by code_simp
  ultimately show ?thesis by blast
qed

theorem C5_no_partial_result_witness:
  "snd (ParseString ''SELECT * FROM t; SELECT FROM t'') \<noteq> None
   \<and> fst (ParseString ''SELECT * FROM t; SELECT FROM t'') = []"
proof -
  have h: "snd (ParseString ''SELECT * FROM t; SELECT FROM t'') \<noteq> None"
    by code_simp
  with C5_no_partial_result [of "''SELECT * FROM t; SELECT FROM t''"] show ?thesis
    by blast
qed


subsection \<open>The column list of INSERT\<close>

lemma peek_remaining: "peek p = (case remaining p of [] \<Rightarrow> None | t # _ \<Rightarrow> Some t)"
  by (simp add: peek_def remaining_def hd_drop_conv_nth split: list.splits)
     (metis Cons_nth_drop_Suc list.inject not_le)

lemma nextTok_remaining: "snd (nextTok p) = (if remaining p = [] then p else advance 1 p)"
  by (simp add: nextTok_def remaining_def advance_def)

lemma remaining_advance: "remaining (advance n p) = drop n (remaining p)"
  by (simp add: remaining_def advance_def add.commute)

lemma advance_advance: "advance m (advance n p) = advance (n + m) p"
  by (simp add: advance_def add.assoc)

lemma peekIsSeparator_remaining:
  "peekIsSeparator p v =
     (case remaining p of [] \<Rightarrow> False | t # _ \<Rightarrow> Type t = TokenSeparator \<and> Value t = v)"
  by (simp add: peekIsSeparator_def peek_remaining split: list.splits)

lemma skipColumnList_first_close:
  "remaining p = skipped @ rp # rest \<Longrightarrow> isCloseParen rp \<Longrightarrow>
   list_all (\<lambda>t. \<not> isCloseParen t) skipped \<Longrightarrow>
   skipColumnList p = Inr (advance (length skipped + 1) p)"
proof (induction "length skipped" arbitrary: skipped p rule: less_induct)
  case less
  show ?case
  proof (cases skipped)
    case Nil
    with less.prems show ?thesis
      by (subst skipColumnList.simps)
         (simp add: peek_remaining nextTok_remaining isCloseParen_def)
  next
    case (Cons x xs)
    with less.prems have x: "\<not> (Type x = TokenSeparator \<and> Value x = '')'')"
      and rem: "remaining p = x # xs @ rp # rest"
      and xs: "list_all (\<lambda>t. \<not> isCloseParen t) xs"
      by (simp_all add: isCloseParen_def)
    let ?p1 = "advance 1 p"
    have rem1: "remaining ?p1 = xs @ rp # rest"
      by (simp add: remaining_advance rem)
    show ?thesis
    proof (cases "peekIsSeparator ?p1 '',''")
      case True
      with rem1 less.prems(2) obtain c xs' where c: "xs = c # xs'"
        by (cases xs) (auto simp: peekIsSeparator_remaining isCloseParen_def)
      have rem2: "remaining (advance 1 ?p1) = xs' @ rp # rest"
        by (simp add: remaining_advance rem c)
      from xs c have xs': "list_all (\<lambda>t. \<not> isCloseParen t) xs'" by simp
      from c Cons have "length xs' < length skipped" by simp
      from less.hyps [OF this rem2 less.prems(2) xs']
      have "skipColumnList (advance 1 ?p1) = Inr (advance (length skipped + 1) p)"
        by (simp add: advance_advance c Cons)
      with True x rem rem1 c show ?thesis
        by (subst skipColumnList.simps)
           (auto simp: peek_remaining nextTok_remaining Let_def)
    next
      case False
      from Cons have "length xs < length skipped" by simp
      from less.hyps [OF this rem1 less.prems(2) xs]
      have "skipColumnList ?p1 = Inr (advance (length skipped + 1) p)"
        by (simp add: advance_advance Cons)
      with False x rem show ?thesis
        by (subst skipColumnList.simps)
           (auto simp: peek_remaining nextTok_remaining Let_def)
    qed
  qed
qed

text \<open>
  C9. After the \<open>(\<close> that follows the table name of an INSERT, the tokens up to the
  first \<open>)\<close> are consumed whatever their kinds: numbers, strings, operators and
  keywords are skipped like identifiers, and no error is raised. So
  \<open>INSERT INTO t (1, 'x') VALUES (2)\<close> parses, to an InsertStmt that holds the value
  list only.
\<close>

theorem C9_insert_column_list_skipped:
  "(remaining p = skipped @ rp # rest \<and> isCloseParen rp
      \<and> list_all (\<lambda>t. \<not> isCloseParen t) skipped
    \<longrightarrow> skipColumnList p = Inr (advance (length skipped + 1) p))
   \<and> ParseString ''INSERT INTO t (1, 'x') VALUES (2)'' = ([InsertStmt ''t'' [LiteralInt 2]], None)"
proof -
  have "ParseString ''INSERT INTO t (1, 'x') VALUES (2)'' = ([InsertStmt ''t'' [LiteralInt 2]], None)"
    by code_simp
  then show ?thesis
    using skipColumnList_first_close [of p skipped rp rest] by blast
qed

theorem C9_insert_column_list_skipped_witness:
  "remaining \<lparr>tokens = Tokenize ''INSERT INTO t (1, 'x') VALUES (2)'', pos = 4\<rparr> =
      [\<lparr>Type = TokenNumber, Value = ''1''\<rparr>, \<lparr>Type = TokenSeparator, Value = '',''\<rparr>,
       \<lparr>Type = TokenString, Value = ''x''\<rparr>]
      @ \<lparr>Type = TokenSeparator, Value = '')''\<rparr>
      # [\<lparr>Type = TokenKeyword, Value = ''VALUES''\<rparr>, \<lparr>Type = TokenSeparator, Value = ''(''\<rparr>,
         \<lparr>Type = TokenNumber, Value = ''2''\<rparr>, \<lparr>Type = TokenSeparator, Value = '')''\<rparr>]
   \<and> isCloseParen \<lparr>Type = TokenSeparator, Value = '')''\<rparr>
   \<and> list_all (\<lambda>t. \<not> isCloseParen t)
        [\<lparr>Type = TokenNumber, Value = ''1''\<rparr>, \<lparr>Type = TokenSeparator, Value = '',''\<rparr>,
         \<lparr>Type = TokenString, Value = ''x''\<rparr>]
   \<and> skipColumnList \<lparr>tokens = Tokenize ''INSERT INTO t (1, 'x') VALUES (2)'', pos = 4\<rparr> =
       Inr \<lparr>tokens = Tokenize ''INSERT INTO t (1, 'x') VALUES (2)'', pos = 8\<rparr>"
proof -
  let ?p = "\<lparr>tokens = Tokenize ''INSERT INTO t (1, 'x') VALUES (2)'', pos = 4\<rparr>"
  let ?skipped = "[\<lparr>Type = TokenNumber, Value = ''1''\<rparr>, \<lparr>Type = TokenSeparator, Value = '',''\<rparr>,
       \<lparr>Type = TokenString, Value = ''x''\<rparr>]"
  let ?rp = "\<lparr>Type = TokenSeparator, Value = '')''\<rparr>"
  let ?rest = "[\<lparr>Type = TokenKeyword, Value = ''VALUES''\<rparr>, \<lparr>Type = TokenSeparator, Value = ''(''\<rparr>,
         \<lparr>Type = TokenNumber, Value = ''2''\<rparr>, \<lparr>Type = TokenSeparator, Value = '')''\<rparr>]"
  have r: "remaining ?p = ?skipped @ ?rp # ?rest" by code_simp
  have c: "isCloseParen ?rp" by (simp add: isCloseParen_def)
  have n: "list_all (\<lambda>t. \<not> isCloseParen t) ?skipped" by (simp add: isCloseParen_def)
  from r c n C9_insert_column_list_skipped [of ?p ?skipped ?rp ?rest]
  have "skipColumnList ?p = Inr (advance (length ?skipped + 1) ?p)" by blast
  with r c n show ?thesis by (simp add: advance_def)
qed

subsection \<open>Chains of comparisons\<close>

lemma parseLogical_loop_chain:
  "logicalChain p chain \<Longrightarrow>
   parseLogical_loop left p = Inr (foldLogical left chain, chainEnd p chain)"
proof (induction chain arbitrary: left p)
  case Nil
  then show ?case
    by (subst parseLogical_loop.simps)
       (auto simp: foldLogical_def chainEnd_def isLogicalKeyword_def split: option.splits)
next
  case (Cons c chain)
  obtain kw right q where c: "c = (kw, right, q)" by (cases c)
  from Cons.prems c have pk: "peek p = Some kw" and kw: "isLogicalKeyword kw"
    and cmp: "parseComparison (snd (nextTok p)) = Inr (right, q)"
    and rest: "logicalChain q chain"
    by simp_all
  from Cons.IH [OF rest, of "LogicalOp left (ToUpper (Value kw)) right"]
  have "parseLogical_loop (LogicalOp left (ToUpper (Value kw)) right) q =
          Inr (foldLogical (LogicalOp left (ToUpper (Value kw)) right) chain, chainEnd q chain)" .
  moreover have "chainEnd q chain = chainEnd p (c # chain)"
    by (simp add: chainEnd_def c)
  moreover have "foldLogical (LogicalOp left (ToUpper (Value kw)) right) chain
                   = foldLogical left (c # chain)"
    by (simp add: foldLogical_def c)
  ultimately show ?case
    using pk kw cmp
    by (subst parseLogical_loop.simps) (simp add: isLogicalKeyword_def Let_def)
qed

text \<open>
  On tokens that reach it intact the loop does fold from left to right, with AND and OR
  alike: here for the text written with blanks around the operators.
\<close>

lemma parseLogical_left_fold_with_blanks:
  "ParseString ''SELECT * FROM t WHERE a = 1 OR b = 2 AND c = 3'' =
     ([SelectStmt [ProjectionItem True []] (TableRef ''t'')
         (Some (LogicalOp
                  (LogicalOp (ComparisonOp (ColumnRef ''a'') ''='' (LiteralInt 1)) ''OR''
                             (ComparisonOp (ColumnRef ''b'') ''='' (LiteralInt 2)))
                  ''AND'' (ComparisonOp (ColumnRef ''c'') ''='' (LiteralInt 3))))
         None],
      None)"
  by code_simp

text \<open>
  C6. The specification asks that parsing \<open>a=1 OR b=2 AND c=3\<close> in a WHERE clause gives
  LogicalOp(LogicalOp(a=1, OR, b=2), AND, c=3). The loop of \<open>parseLogical\<close> is a left
  fold (\<open>parseLogical_loop_chain\<close>), but this text never reaches it intact: each \<open>=\<close>
  follows its identifier directly, so the operator branch of \<open>Tokenize_loop\<close> steps over
  the character after it and the three numbers reach no token. The tokens are
  \<open>a = OR b = AND c =\<close>, \<open>parseLogical\<close> meets \<open>OR\<close> where it expects a right
  operand, and \<open>ParseString\<close> returns that error and no node.
\<close>

theorem C6_chain_without_blanks_rejected:
  "Tokenize ''a=1 OR b=2 AND c=3'' =
     [\<lparr>Type = TokenIdentifier, Value = ''a''\<rparr>, \<lparr>Type = TokenOperator, Value = ''=''\<rparr>,
      \<lparr>Type = TokenKeyword, Value = ''OR''\<rparr>,
      \<lparr>Type = TokenIdentifier, Value = ''b''\<rparr>, \<lparr>Type = TokenOperator, Value = ''=''\<rparr>,
      \<lparr>Type = TokenKeyword, Value = ''AND''\<rparr>,
      \<lparr>Type = TokenIdentifier, Value = ''c''\<rparr>, \<lparr>Type = TokenOperator, Value = ''=''\<rparr>]
   \<and> parseLogical \<lparr>tokens = Tokenize ''a=1 OR b=2 AND c=3'', pos = 0\<rparr> =
       Inl (UnexpectedTokenOnRight \<lparr>Type = TokenKeyword, Value = ''OR''\<rparr>)
   \<and> ParseString ''SELECT * FROM t WHERE a=1 OR b=2 AND c=3'' =
       ([], Some (UnexpectedTokenOnRight \<lparr>Type = TokenKeyword, Value = ''OR''\<rparr>))"
  by code_simp

subsection \<open>Numbers with a fractional part\<close>

text \<open>
  C3. The specification asks that a Number token containing a dot is cut at the first
  dot in the same way wherever the parser accepts a number, so that \<open>10.5\<close> gives 10
  as the right operand of a WHERE comparison, as an entry of a VALUES list and as the
  limit of a LIMIT clause. \<open>parseComparison\<close> and the VALUES loop do cut the token
  (\<open>parseTruncated\<close>) and give LiteralInt 10. The LIMIT branch of \<open>parseSelect\<close> has no
  such step: it passes the whole token to \<open>ParseUint\<close>, which rejects the dot, and
  \<open>LIMIT 10.5\<close> is an error with no node.
\<close>

theorem C3_limit_fraction_not_truncated:
  "ParseString ''SELECT * FROM t LIMIT 10.5'' = ([], Some (ParseUintError ErrSyntax ''10.5''))
   \<and> ParseString ''SELECT * FROM t WHERE a = 10.5'' =
       ([SelectStmt [ProjectionItem True []] (TableRef ''t'')
           (Some (ComparisonOp (ColumnRef ''a'') ''='' (LiteralInt 10))) None], None)
   \<and> ParseString ''INSERT INTO t VALUES (10.5)'' = ([InsertStmt ''t'' [LiteralInt 10]], None)"
  by code_simp

end
